theory Spec2Isabelle
  imports Complex_Main "HOL-Library.Word"
begin

unbundle bit_operations_syntax

section \<open>Python values used by the image field\<close>

text \<open>
  A Python \<open>str\<close> is represented by its UTF-8 bytes, one \<open>char\<close> per byte. Every string
  operation of the sources (concatenation, \<open>split\<close>, \<open>join\<close>, \<open>startswith\<close>,
  \<open>os.path.splitext\<close>, slicing of the ASCII hash) acts on ASCII delimiters only and so
  commutes with the encoding; \<open>str.encode('utf-8')\<close> reads the bytes off.
\<close>

type_synonym byte = "8 word"

datatype exn = AttributeError | KeyError | NameError | TypeError | ValueError | IOError
  | ImageError | HandlerError

datatype pyval = PyNone | PyStr string | PyInt int | PyObj string

text \<open>
  A Python \<open>float\<close> obtained from a literal: sign and exact decimal value of the literal
  (the rounding to binary64 is not represented), or an infinity, or not-a-number.
\<close>

datatype pyfloat = Finite bool rat | Infinity bool | NaN

definition encode_utf8 :: "string \<Rightarrow> byte list" where
  "encode_utf8 s = map (\<lambda>c. of_char c) s"

subsection \<open>\<open>str.split(sep)\<close>, \<open>sep.join\<close>, \<open>str.lower\<close>, \<open>str.strip\<close>\<close>

fun split_on :: "char \<Rightarrow> string \<Rightarrow> string list" where
  "split_on sep [] = [[]]"
| "split_on sep (c # cs) =
     (if c = sep then [] # split_on sep cs
      else (case split_on sep cs of
              [] \<Rightarrow> [[c]]
            | w # ws \<Rightarrow> (c # w) # ws))"

fun join :: "string \<Rightarrow> string list \<Rightarrow> string" where
  "join sep [] = []"
| "join sep [w] = w"
| "join sep (w # v # ws) = w @ sep @ join sep (v # ws)"

definition lower_char :: "char \<Rightarrow> char" where
  "lower_char c =
     (if 65 \<le> (of_char c :: nat) \<and> (of_char c :: nat) \<le> 90
      then char_of (of_char c + (32 :: nat)) else c)"

definition lower :: "string \<Rightarrow> string" where
  "lower s = map lower_char s"

definition is_space :: "char \<Rightarrow> bool" where
  "is_space c = (c \<in> set [CHR '' '', CHR 0x09, CHR 0x0A, CHR 0x0B, CHR 0x0C, CHR 0x0D])"

definition strip :: "string \<Rightarrow> string" where
  "strip s = rev (dropWhile is_space (rev (dropWhile is_space s)))"

definition rstrip :: "string \<Rightarrow> string \<Rightarrow> string" where
  "rstrip chars s = rev (dropWhile (\<lambda>c. c \<in> set chars) (rev s))"

subsection \<open>The builtin \<open>float(str)\<close>\<close>

text \<open>
  The grammar of the Python language reference for \<open>float()\<close> on ASCII text: optional
  surrounding whitespace, an optional sign, then \<open>inf\<close>, \<open>infinity\<close> or \<open>nan\<close> in any
  case, or a decimal number with optional fraction and exponent, digits optionally
  grouped by single underscores. Anything else raises \<open>ValueError\<close>.
\<close>

definition is_digit :: "char \<Rightarrow> bool" where
  "is_digit c = (48 \<le> (of_char c :: nat) \<and> (of_char c :: nat) \<le> 57)"

fun digitpart :: "string \<Rightarrow> string option" where
  "digitpart [] = None"
| "digitpart [c] = (if is_digit c then Some [c] else None)"
| "digitpart (c # d # cs) =
     (if is_digit c
      then (if d = CHR ''_'' then map_option (Cons c) (digitpart cs)
            else map_option (Cons c) (digitpart (d # cs)))
      else None)"

definition digits_val :: "string \<Rightarrow> nat" where
  "digits_val ds = foldl (\<lambda>acc c. 10 * acc + (of_char c - 48)) 0 ds"

definition parse_number :: "string \<Rightarrow> (nat \<times> nat) option" where
  "parse_number s =
     (let ip = takeWhile (\<lambda>c. c \<noteq> CHR ''.'') s;
          rest = dropWhile (\<lambda>c. c \<noteq> CHR ''.'') s
      in case rest of
           [] \<Rightarrow> map_option (\<lambda>ds. (digits_val ds, 0)) (digitpart ip)
         | _ # fp \<Rightarrow>
             (if fp = [] then map_option (\<lambda>ds. (digits_val ds, 0)) (digitpart ip)
              else (case digitpart fp of
                      None \<Rightarrow> None
                    | Some fs \<Rightarrow>
                        (if ip = [] then Some (digits_val fs, length fs)
                         else map_option (\<lambda>ds. (digits_val (ds @ fs), length fs))
                                (digitpart ip)))))"

definition parse_exponent :: "string \<Rightarrow> int option" where
  "parse_exponent s =
     (case s of
        [] \<Rightarrow> None
      | c # cs \<Rightarrow>
          (if c = CHR ''+'' then map_option (\<lambda>ds. int (digits_val ds)) (digitpart cs)
           else if c = CHR ''-'' then map_option (\<lambda>ds. - int (digits_val ds)) (digitpart cs)
           else map_option (\<lambda>ds. int (digits_val ds)) (digitpart s)))"

definition scale10 :: "nat \<Rightarrow> int \<Rightarrow> rat" where
  "scale10 m e = (if 0 \<le> e then of_nat m * 10 ^ nat e else of_nat m / 10 ^ nat (- e))"

definition parse_floatnumber :: "string \<Rightarrow> rat option" where
  "parse_floatnumber s =
     (let is_e = (\<lambda>c. c = CHR ''e'' \<or> c = CHR ''E'');
          m = takeWhile (\<lambda>c. \<not> is_e c) s;
          r = dropWhile (\<lambda>c. \<not> is_e c) s
      in case parse_number m of
           None \<Rightarrow> None
         | Some (mant, fd) \<Rightarrow>
             (case r of
                [] \<Rightarrow> Some (scale10 mant (- int fd))
              | _ # ex \<Rightarrow> map_option (\<lambda>e. scale10 mant (e - int fd)) (parse_exponent ex)))"

definition parse_absfloat :: "bool \<Rightarrow> string \<Rightarrow> pyfloat option" where
  "parse_absfloat neg s =
     (if lower s = ''inf'' \<or> lower s = ''infinity'' then Some (Infinity neg)
      else if lower s = ''nan'' then Some NaN
      else map_option (Finite neg) (parse_floatnumber s))"

definition py_float :: "string \<Rightarrow> exn + pyfloat" where
  "py_float s =
     (let r = (case strip s of
                 [] \<Rightarrow> None
               | c # cs \<Rightarrow>
                   (if c = CHR ''-'' then parse_absfloat True cs
                    else if c = CHR ''+'' then parse_absfloat False cs
                    else parse_absfloat False (c # cs)))
      in case r of None \<Rightarrow> Inl ValueError | Some x \<Rightarrow> Inr x)"

section \<open>\<open>hashlib.sha1\<close>\<close>

text \<open>SHA-1 as in FIPS 180-4, on whole bytes, with 32-bit words.\<close>

definition bytes_of_32 :: "32 word \<Rightarrow> byte list" where
  "bytes_of_32 w = [ucast (drop_bit 24 w), ucast (drop_bit 16 w), ucast (drop_bit 8 w), ucast w]"

definition bytes_of_64 :: "64 word \<Rightarrow> byte list" where
  "bytes_of_64 w = map (\<lambda>k. ucast (drop_bit (8 * k) w)) [7, 6, 5, 4, 3, 2, 1, 0]"

definition be32 :: "byte list \<Rightarrow> 32 word" where
  "be32 bs = foldl (\<lambda>acc b. push_bit 8 acc OR ucast b) 0 bs"

definition sha1_pad :: "byte list \<Rightarrow> byte list" where
  "sha1_pad m = m @ [0x80] @ replicate ((119 - length m mod 64) mod 64) 0
                  @ bytes_of_64 (of_nat (8 * length m))"

fun chunks :: "nat \<Rightarrow> 'a list \<Rightarrow> 'a list list" where
  "chunks n xs = (if n = 0 \<or> xs = [] then [] else take n xs # chunks n (drop n xs))"

declare chunks.simps [simp del]

fun sha1_schedule :: "nat \<Rightarrow> 32 word list \<Rightarrow> 32 word list" where
  "sha1_schedule 0 ws = ws"
| "sha1_schedule (Suc k) ws =
     (let n = length ws
      in sha1_schedule k
           (ws @ [word_rotl 1
                    (ws ! (n - 3) XOR ws ! (n - 8) XOR ws ! (n - 14) XOR ws ! (n - 16))]))"

type_synonym sha1_state = "32 word \<times> 32 word \<times> 32 word \<times> 32 word \<times> 32 word"

definition sha1_f :: "nat \<Rightarrow> 32 word \<Rightarrow> 32 word \<Rightarrow> 32 word \<Rightarrow> 32 word" where
  "sha1_f t b c d =
     (if t < 20 then (b AND c) OR (NOT b AND d)
      else if t < 40 then b XOR c XOR d
      else if t < 60 then (b AND c) OR (b AND d) OR (c AND d)
      else b XOR c XOR d)"

definition sha1_k :: "nat \<Rightarrow> 32 word" where
  "sha1_k t =
     (if t < 20 then 0x5A827999
      else if t < 40 then 0x6ED9EBA1
      else if t < 60 then 0x8F1BBCDC
      else 0xCA62C1D6)"

fun sha1_round :: "32 word list \<Rightarrow> sha1_state \<Rightarrow> nat \<Rightarrow> sha1_state" where
  "sha1_round ws (a, b, c, d, e) t =
     (word_rotl 5 a + sha1_f t b c d + e + sha1_k t + ws ! t, a, word_rotl 30 b, c, d)"

fun sha1_block :: "sha1_state \<Rightarrow> byte list \<Rightarrow> sha1_state" where
  "sha1_block (h0, h1, h2, h3, h4) block =
     (let ws = sha1_schedule 64 (map be32 (chunks 4 block));
          (a, b, c, d, e) = foldl (sha1_round ws) (h0, h1, h2, h3, h4) [0..<80]
      in (h0 + a, h1 + b, h2 + c, h3 + d, h4 + e))"

definition sha1_init :: sha1_state where
  "sha1_init = (0x67452301, 0xEFCDAB89, 0x98BADCFE, 0x10325476, 0xC3D2E1F0)"

definition sha1 :: "byte list \<Rightarrow> byte list" where
  "sha1 m =
     (case foldl sha1_block sha1_init (chunks 64 (sha1_pad m)) of
        (h0, h1, h2, h3, h4) \<Rightarrow> concat (map bytes_of_32 [h0, h1, h2, h3, h4]))"

section \<open>\<open>django.utils.http.urlsafe_base64_encode\<close>\<close>

text \<open>
  \<open>base64.urlsafe_b64encode(s).rstrip(b'\n=')\<close>: RFC 4648 base64 over the URL-safe
  alphabet, three bytes to four characters, padded with \<open>=\<close>, the padding then removed.
\<close>

definition url_alphabet :: string where
  "url_alphabet = ''ABCDEFGHIJKLMNOPQRSTUVWXYZabcdefghijklmnopqrstuvwxyz0123456789-_''"

definition b64_char :: "nat \<Rightarrow> char" where
  "b64_char i = url_alphabet ! i"

fun urlsafe_b64encode :: "byte list \<Rightarrow> string" where
  "urlsafe_b64encode (a # b # c # rest) =
     [b64_char (unat a div 4),
      b64_char ((unat a mod 4) * 16 + unat b div 16),
      b64_char ((unat b mod 16) * 4 + unat c div 64),
      b64_char (unat c mod 64)] @ urlsafe_b64encode rest"
| "urlsafe_b64encode [a, b] =
     [b64_char (unat a div 4),
      b64_char ((unat a mod 4) * 16 + unat b div 16),
      b64_char ((unat b mod 16) * 4),
      CHR ''='']"
| "urlsafe_b64encode [a] =
     [b64_char (unat a div 4), b64_char ((unat a mod 4) * 16), CHR ''='', CHR ''='']"
| "urlsafe_b64encode [] = []"

definition urlsafe_base64_encode :: "byte list \<Rightarrow> string" where
  "urlsafe_base64_encode s = rstrip [CHR 0x0A, CHR ''=''] (urlsafe_b64encode s)"

section \<open>\<open>os.path.splitext\<close> (POSIX)\<close>

definition rfind :: "char \<Rightarrow> string \<Rightarrow> int" where
  "rfind c s =
     (case List.find (\<lambda>i. s ! i = c) (rev [0..<length s]) of
        None \<Rightarrow> - 1
      | Some i \<Rightarrow> int i)"

function skip_dots :: "string \<Rightarrow> nat \<Rightarrow> nat \<Rightarrow> bool" where
  "skip_dots p i d =
     (if i < d then (if p ! i \<noteq> CHR ''.'' then True else skip_dots p (Suc i) d)
      else False)"
  by pat_completeness auto
termination
  by (relation "measure (\<lambda>(p, i, d). d - i)") auto

declare skip_dots.simps [simp del]

definition splitext :: "string \<Rightarrow> string \<times> string" where
  "splitext p =
     (let sepIndex = rfind CHR ''/'' p;
          dotIndex = rfind CHR ''.'' p
      in if dotIndex > sepIndex \<and> skip_dots p (nat (sepIndex + 1)) (nat dotIndex)
         then (take (nat dotIndex) p, drop (nat dotIndex) p)
         else (p, []))"

section \<open>\<open>imagefield/fields.py\<close>\<close>

definition urlhash :: "string \<Rightarrow> string" where
  "urlhash s = urlsafe_base64_encode (sha1 (encode_utf8 s))"

subsection \<open>Fields, field files and the library the module calls\<close>

text \<open>
  \<open>ImageField\<close>: its name, the label of its model, the value of the cached property
  \<open>formats\<close> (a dict, in insertion order) and \<open>ppoi_field\<close>. The processor descriptors
  \<open>'p\<close> are whatever the formats hold.
\<close>

record 'p image_field =
  field_name :: string
  label :: string
  label_lower :: string
  formats :: "(string \<times> 'p list) list"
  ppoi_field :: "string option"

text \<open>
  \<open>ImageFieldFile\<close>: \<open>name\<close> (\<open>None\<close> when the record holds no file), the field, the
  attribute values of the model instance, and \<open>dict\<close>, everything ordinary attribute
  lookup finds on the object before \<open>__getattr__\<close> is consulted.
\<close>

record 'p fieldfile =
  name :: "string option"
  field :: "'p image_field"
  inst :: "string \<rightharpoonup> pyval"
  dict :: "string \<rightharpoonup> pyval"

record ctx =
  ctx_ppoi :: "pyfloat list"
  ctx_save_kwargs :: "(string \<times> pyval) list"

text \<open>
  What the module takes from Python, Pillow, \<open>imagefield.processing\<close> and the storage
  backend without defining it: \<open>str\<close> of a processor descriptor, \<open>repr\<close> of a float,
  \<open>Image.open\<close>, \<open>image.format\<close>, \<open>build_handler\<close>, \<open>image.save\<close>, \<open>storage.url\<close>,
  the name a storage picks when asked to save over an existing file, and
  \<open>int(index / count * 50)\<close> of the progress bar (float arithmetic).
\<close>

record ('p, 'img) env =
  str_proc :: "'p \<Rightarrow> string"
  repr_float :: "pyfloat \<Rightarrow> string"
  image_open :: "byte list \<Rightarrow> exn + 'img"
  image_format :: "'img \<Rightarrow> string"
  build_handler :: "'p list \<Rightarrow> exn + ('img \<Rightarrow> ctx \<Rightarrow> exn + 'img \<times> ctx)"
  image_save :: "'img \<Rightarrow> string \<Rightarrow> (string \<times> pyval) list \<Rightarrow> exn + byte list"
  storage_url :: "string \<Rightarrow> string"
  alt_name :: "string \<Rightarrow> string"
  progress_stars :: "nat \<Rightarrow> nat \<Rightarrow> nat"

subsection \<open>The storage and the console\<close>

datatype event =
    StorageExists string
  | StorageOpen string
  | StorageDelete string
  | StorageSave string "byte list"
  | StorageUrl string
  | Stdout string

record world =
  files :: "string \<rightharpoonup> byte list"
  trace :: "event list"

type_synonym 'a action = "world \<Rightarrow> (exn + 'a) \<times> world"

definition returnS :: "'a \<Rightarrow> 'a action" where
  "returnS x = (\<lambda>w. (Inr x, w))"

definition raise :: "exn \<Rightarrow> 'a action" where
  "raise e = (\<lambda>w. (Inl e, w))"

definition liftE :: "exn + 'a \<Rightarrow> 'a action" where
  "liftE r = (\<lambda>w. (r, w))"

definition bindS :: "'a action \<Rightarrow> ('a \<Rightarrow> 'b action) \<Rightarrow> 'b action" where
  "bindS m f = (\<lambda>w. case m w of (Inl e, w') \<Rightarrow> (Inl e, w') | (Inr x, w') \<Rightarrow> f x w')"

text \<open>\<open>try: ... except Exception: pass\<close>\<close>

definition try_pass :: "unit action \<Rightarrow> unit action" where
  "try_pass m = (\<lambda>w. case m w of (Inl e, w') \<Rightarrow> (Inr (), w') | (Inr x, w') \<Rightarrow> (Inr (), w'))"

definition emit :: "event \<Rightarrow> world \<Rightarrow> world" where
  "emit ev w = w\<lparr>trace := trace w @ [ev]\<rparr>"

definition storage_exists :: "string \<Rightarrow> bool action" where
  "storage_exists p = (\<lambda>w. (Inr (files w p \<noteq> None), emit (StorageExists p) w))"

definition storage_open :: "string \<Rightarrow> (byte list) action" where
  "storage_open p =
     (\<lambda>w. ((case files w p of None \<Rightarrow> Inl IOError | Some c \<Rightarrow> Inr c), emit (StorageOpen p) w))"

definition storage_delete :: "string \<Rightarrow> unit action" where
  "storage_delete p = (\<lambda>w. (Inr (), emit (StorageDelete p) (w\<lparr>files := (files w)(p := None)\<rparr>)))"

definition storage_save :: "('p, 'img) env \<Rightarrow> string \<Rightarrow> byte list \<Rightarrow> unit action" where
  "storage_save E p c =
     (\<lambda>w. let p' = (if files w p = None then p else alt_name E p)
          in (Inr (), emit (StorageSave p' c) (w\<lparr>files := (files w)(p' \<mapsto> c)\<rparr>)))"

definition storage_get_url :: "('p, 'img) env \<Rightarrow> string \<Rightarrow> string action" where
  "storage_get_url E p = (\<lambda>w. (Inr (storage_url E p), emit (StorageUrl p) w))"

definition print :: "string \<Rightarrow> unit action" where
  "print s = (\<lambda>w. (Inr (), emit (Stdout (s @ [CHR 0x0A])) w))"

definition stdout_write :: "string \<Rightarrow> string \<Rightarrow> unit action" where
  "stdout_write msg ending = (\<lambda>w. (Inr (), emit (Stdout (msg @ ending)) w))"

subsection \<open>\<open>ImageFieldFile\<close>\<close>

fun map_exn :: "('a \<Rightarrow> exn + 'b) \<Rightarrow> 'a list \<Rightarrow> exn + 'b list" where
  "map_exn f [] = Inr []"
| "map_exn f (x # xs) =
     (case f x of
        Inl e \<Rightarrow> Inl e
      | Inr y \<Rightarrow> (case map_exn f xs of Inl e \<Rightarrow> Inl e | Inr ys \<Rightarrow> Inr (y # ys)))"

definition default_ppoi :: "pyfloat list" where
  "default_ppoi = [Finite False (1 / 2), Finite False (1 / 2)]"

definition ppoi :: "'p fieldfile \<Rightarrow> exn + pyfloat list" where
  "ppoi self =
     (case ppoi_field (field self) of
        None \<Rightarrow> Inr default_ppoi
      | Some pf \<Rightarrow>
          (if pf = [] then Inr default_ppoi
           else (case inst self pf of
                   Some (PyStr s) \<Rightarrow> map_exn py_float (split_on CHR ''x'' s)
                 | _ \<Rightarrow> Inl AttributeError)))"

definition str_list :: "('p, 'img) env \<Rightarrow> pyfloat list \<Rightarrow> string" where
  "str_list E xs = ''['' @ join '', '' (map (repr_float E) xs) @ '']''"

definition processed_name :: "('p, 'img) env \<Rightarrow> 'p fieldfile \<Rightarrow> 'p list \<Rightarrow> exn + string" where
  "processed_name E self processors =
     (case name self of
        None \<Rightarrow> Inl AttributeError
      | Some n \<Rightarrow>
          (let p1 = urlhash n
           in case ppoi self of
                Inl e \<Rightarrow> Inl e
              | Inr pp \<Rightarrow>
                  (let p2 = urlhash (join ''|'' (map (str_proc E) processors) @ ''|''
                                       @ str_list E pp);
                       ext = snd (splitext n)
                   in Inr (''__processed__/'' @ take 2 p1 @ ''/'' @ drop 2 p1 @ ''_'' @ p2
                             @ ext))))"

definition processed_base :: "'p fieldfile \<Rightarrow> exn + string \<times> string" where
  "processed_base self =
     (case name self of
        None \<Rightarrow> Inl AttributeError
      | Some n \<Rightarrow>
          (let p1 = urlhash n in Inr (''__processed__/'' @ take 2 p1, drop 2 p1 @ ''_'')))"

definition lookup_format :: "'p fieldfile \<Rightarrow> string \<Rightarrow> exn + 'p list" where
  "lookup_format self item =
     (case map_of (formats (field self)) item of None \<Rightarrow> Inl KeyError | Some ps \<Rightarrow> Inr ps)"

definition open_file :: "'p fieldfile \<Rightarrow> (byte list) action" where
  "open_file self =
     (case name self of
        None \<Rightarrow> raise ValueError
      | Some n \<Rightarrow> (if n = [] then raise ValueError else storage_open n))"

definition process :: "('p, 'img) env \<Rightarrow> 'p fieldfile \<Rightarrow> string \<Rightarrow> bool \<Rightarrow> unit action" where
  "process E self item force =
     bindS (liftE (lookup_format self item)) (\<lambda>processors.
     bindS (liftE (processed_name E self processors)) (\<lambda>target.
     bindS (if force then returnS False else storage_exists target) (\<lambda>hit.
     if hit then returnS ()
     else
       bindS (open_file self) (\<lambda>orig.
       bindS (liftE (image_open E orig)) (\<lambda>img.
       bindS (liftE (ppoi self)) (\<lambda>pp.
       bindS (liftE (build_handler E processors)) (\<lambda>handler.
       bindS (liftE (handler img \<lparr>ctx_ppoi = pp, ctx_save_kwargs = []\<rparr>)) (\<lambda>(img', context).
       bindS (liftE (image_save E img' (image_format E img) (ctx_save_kwargs context)))
         (\<lambda>buf.
       bindS (storage_delete target) (\<lambda>_.
       bindS (storage_save E target buf) (\<lambda>_.
       print (''Saved '' @ target))))))))))))"

text \<open>
  Attribute access: ordinary lookup first, \<open>__getattr__\<close> (here \<open>getattr_hook\<close>) only
  when that finds nothing.
\<close>

definition getattr_hook ::
  "('p, 'img) env \<Rightarrow> 'p fieldfile \<Rightarrow> string \<Rightarrow> world \<Rightarrow> (exn + pyval) \<times> 'p fieldfile \<times> world" where
  "getattr_hook E self item w =
     (case map_of (formats (field self)) item of
        Some processors \<Rightarrow>
          (case processed_name E self processors of
             Inl e \<Rightarrow> (Inl e, self, w)
           | Inr target \<Rightarrow>
               (case storage_get_url E target w of
                  (Inl e, w') \<Rightarrow> (Inl e, self, w')
                | (Inr url, w') \<Rightarrow>
                    (Inr (PyStr url), self\<lparr>dict := (dict self)(item \<mapsto> PyStr url)\<rparr>, w')))
      | None \<Rightarrow> (Inl AttributeError, self, w))"

definition getattr ::
  "('p, 'img) env \<Rightarrow> 'p fieldfile \<Rightarrow> string \<Rightarrow> world \<Rightarrow> (exn + pyval) \<times> 'p fieldfile \<times> world" where
  "getattr E self item w =
     (case dict self item of
        Some v \<Rightarrow> (Inr v, self, w)
      | None \<Rightarrow> getattr_hook E self item w)"

subsection \<open>\<open>ImageField\<close>\<close>

text \<open>The descriptor behind \<open>getattr(instance, field.name)\<close>.\<close>

text \<open>
  What ordinary lookup finds on a fresh field file, as far as this module shows it: the
  attributes the module reads (\<open>name\<close>, \<open>instance\<close>, \<open>field\<close>, \<open>storage\<close>) and the
  methods the class defines. What the object inherits from Django's \<open>FieldFile\<close> is found
  the same way and is not listed.
\<close>

definition base_dict :: "string option \<Rightarrow> (string \<rightharpoonup> pyval)" where
  "base_dict n =
     [''name'' \<mapsto> (case n of None \<Rightarrow> PyNone | Some s \<Rightarrow> PyStr s),
      ''instance'' \<mapsto> PyObj ''instance'', ''field'' \<mapsto> PyObj ''field'',
      ''storage'' \<mapsto> PyObj ''storage'', ''_ppoi'' \<mapsto> PyObj ''method'',
      ''_processed_name'' \<mapsto> PyObj ''method'', ''_processed_base'' \<mapsto> PyObj ''method'',
      ''process'' \<mapsto> PyObj ''method'']"

definition fieldfile_of :: "'p image_field \<Rightarrow> (string \<rightharpoonup> pyval) \<Rightarrow> 'p fieldfile" where
  "fieldfile_of fld instance =
     (let n = (case instance (field_name fld) of Some (PyStr s) \<Rightarrow> Some s | _ \<Rightarrow> None)
      in \<lparr>name = n, field = fld, inst = instance, dict = base_dict n\<rparr>)"

fun generate_files_loop :: "('p, 'img) env \<Rightarrow> 'p fieldfile \<Rightarrow> string list \<Rightarrow> unit action" where
  "generate_files_loop E f [] = returnS ()"
| "generate_files_loop E f (item # items) =
     bindS (process E f item False) (\<lambda>_. generate_files_loop E f items)"

definition generate_files ::
  "('p, 'img) env \<Rightarrow> 'p image_field \<Rightarrow> (string \<rightharpoonup> pyval) \<Rightarrow> unit action" where
  "generate_files E self instance =
     (let f = fieldfile_of self instance
      in generate_files_loop E f (map fst (formats (field f))))"

text \<open>
  \<open>_clear_generated_files\<close> is a \<open>staticmethod\<close> with the parameters \<open>instance\<close> and
  \<open>**kwargs\<close>; its first statement reads the name \<open>self\<close>, which is neither a local nor
  bound at module level, so the lookup raises \<open>NameError\<close>. Were the name bound, the
  next statement calls \<open>_processed_name()\<close> without its argument (\<open>TypeError\<close>).
\<close>

definition module_names :: "string list" where
  "module_names =
     [''hashlib'', ''io'', ''os'', ''SimpleNamespace'', ''settings'', ''ContentFile'',
      ''models'', ''signals'', ''files'', ''ClearableFileInput'', ''cached_property'',
      ''urlsafe_base64_encode'', ''Image'', ''build_handler'', ''PPOIWidget'',
      ''with_preview_and_ppoi'', ''IMAGE_FIELDS'', ''urlhash'', ''ImageFieldFile'',
      ''ImageField'', ''PPOIField'']"

definition clear_generated_files :: "(string \<rightharpoonup> pyval) \<Rightarrow> unit action" where
  "clear_generated_files instance =
     (if ''self'' \<in> set ([''instance'', ''kwargs''] @ module_names)
      then raise TypeError
      else raise NameError)"

section \<open>\<open>management/commands/process_all_imagefields.py\<close>\<close>

type_synonym field_filter = "(string \<rightharpoonup> string list) option"

definition add_filter :: "field_filter \<Rightarrow> string \<Rightarrow> field_filter" where
  "add_filter flt fld =
     (let parts = split_on CHR ''.'' (lower fld)
      in map_option (\<lambda>d. d(join ''.'' (take 2 parts) \<mapsto> drop 2 parts)) flt)"

text \<open>
  \<open>_make_filter\<close>: the assignment of \<open>None\<close> under \<open>if not fields\<close> is followed, with no
  \<open>return\<close> or \<open>else\<close>, by the assignment of \<open>{}\<close>. \<open>prev\<close> is what \<open>self._filter\<close> held.
\<close>

definition make_filter :: "field_filter \<Rightarrow> string list \<Rightarrow> field_filter" where
  "make_filter prev field_args =
     (let flt = (if field_args = [] then None else prev);
          flt = Some Map.empty
      in foldl add_filter flt field_args)"

definition skip_field :: "field_filter \<Rightarrow> 'p image_field \<Rightarrow> bool" where
  "skip_field flt fld =
     (case flt of
        None \<Rightarrow> False
      | Some d \<Rightarrow>
          (case d (label_lower fld) of
             None \<Rightarrow> True
           | Some names \<Rightarrow> names \<noteq> [] \<and> field_name fld \<notin> set names))"

definition rjust :: "nat \<Rightarrow> string \<Rightarrow> string" where
  "rjust n s = replicate (n - length s) CHR '' '' @ s"

fun process_keys :: "('p, 'img) env \<Rightarrow> 'p fieldfile \<Rightarrow> bool \<Rightarrow> string list \<Rightarrow> unit action" where
  "process_keys E fieldfile force [] = returnS ()"
| "process_keys E fieldfile force (key # keys) =
     bindS (try_pass (process E fieldfile key force)) (\<lambda>_. process_keys E fieldfile force keys)"

definition has_file :: "'p fieldfile \<Rightarrow> bool" where
  "has_file fieldfile = (name fieldfile \<noteq> None \<and> name fieldfile \<noteq> Some [])"

fun handle_instances ::
  "('p, 'img) env \<Rightarrow> 'p image_field \<Rightarrow> bool \<Rightarrow> nat \<Rightarrow> (nat \<times> (string \<rightharpoonup> pyval)) list
     \<Rightarrow> unit action" where
  "handle_instances E fld force count [] = returnS ()"
| "handle_instances E fld force count ((index, instance) # rest) =
     bindS (let fieldfile = fieldfile_of fld instance
            in if has_file fieldfile
               then process_keys E fieldfile force (map fst (formats fld))
               else returnS ()) (\<lambda>_.
     bindS (if index mod 10 = 0
            then stdout_write
                   ([CHR 0x0D] @ ''|''
                      @ rjust 50 (replicate (progress_stars E index count) CHR ''*'') @ ''|'') []
            else returnS ()) (\<lambda>_.
     handle_instances E fld force count rest))"

fun handle_fields ::
  "('p, 'img) env \<Rightarrow> (string \<Rightarrow> (string \<rightharpoonup> pyval) list) \<Rightarrow> field_filter \<Rightarrow> bool
     \<Rightarrow> 'p image_field list \<Rightarrow> unit action" where
  "handle_fields E db flt force [] = returnS ()"
| "handle_fields E db flt force (fld # flds) =
     (if skip_field flt fld then handle_fields E db flt force flds
      else
        bindS (stdout_write (label fld @ '': '' @ field_name fld) [CHR 0x0A]) (\<lambda>_.
        (let queryset = db (label fld); count = length queryset
         in bindS (handle_instances E fld force count (zip [0..<count] queryset)) (\<lambda>_.
            bindS (stdout_write ([CHR 0x0D] @ ''|'' @ replicate 50 CHR ''*'' @ ''|'')
                     [CHR 0x0A]) (\<lambda>_.
            handle_fields E db flt force flds)))))"

record options =
  opt_field :: "string list"
  opt_force :: bool

text \<open>
  \<open>handle\<close>: \<open>registry\<close> is \<open>IMAGE_FIELDS\<close>, \<open>db\<close> gives the records of a model by its
  label, each as the values of its attributes.
\<close>

definition handle ::
  "('p, 'img) env \<Rightarrow> 'p image_field list \<Rightarrow> (string \<Rightarrow> (string \<rightharpoonup> pyval) list)
     \<Rightarrow> field_filter \<Rightarrow> options \<Rightarrow> unit action" where
  "handle E registry db prev opts =
     handle_fields E db (make_filter prev (opt_field opts)) (opt_force opts) registry"

section \<open>A photo model used in the worked examples\<close>

definition photo_field :: "string image_field" where
  "photo_field =
     \<lparr>field_name = ''image'', label = ''app.Photo'', label_lower = ''app.photo'',
      formats = [(''thumb'', [''default''])], ppoi_field = Some ''ppoi''\<rparr>"

definition photo_record :: "string \<Rightarrow> string \<Rightarrow> (string \<rightharpoonup> pyval)" where
  "photo_record image_name ppoi_text =
     [''image'' \<mapsto> PyStr image_name, ''ppoi'' \<mapsto> PyStr ppoi_text]"

definition photo_file :: "string \<Rightarrow> string \<Rightarrow> string fieldfile" where
  "photo_file image_name ppoi_text =
     fieldfile_of photo_field (photo_record image_name ppoi_text)"

text \<open>
  A library for the examples: processors are named by strings (\<open>str\<close> of a string is
  the string), an image is its bytes, \<open>Image.open\<close> rejects the empty file, the pipeline
  is the identity, and \<open>repr\<close> agrees with Python on the PPOI values used below.
\<close>

definition photo_env :: "(string, byte list) env" where
  "photo_env =
     \<lparr>str_proc = (\<lambda>p. p),
      repr_float = (\<lambda>x. if x = Finite False (1 / 2) then ''0.5''
                         else if x = Finite False (1 / 5) then ''0.2''
                         else if x = Finite False (4 / 5) then ''0.8'' else ''nan''),
      image_open = (\<lambda>bs. if bs = [] then Inl ImageError else Inr bs),
      image_format = (\<lambda>_. ''JPEG''),
      build_handler = (\<lambda>ps. Inr (\<lambda>img c. Inr (img, c))),
      image_save = (\<lambda>img fmt kwargs. Inr img),
      storage_url = (\<lambda>p. ''/media/'' @ p),
      alt_name = (\<lambda>p. p @ ''_1''),
      progress_stars = (\<lambda>index count. index * 50 div count)\<rparr>"

definition photo_target :: string where
  "photo_target =
     ''__processed__/'' @ take 2 (urlhash ''photos/a.jpg'') @ ''/''
       @ drop 2 (urlhash ''photos/a.jpg'') @ ''_'' @ urlhash ''default|[0.5, 0.5]'' @ ''.jpg''"

definition photo_world :: world where
  "photo_world = \<lparr>files = [''photos/a.jpg'' \<mapsto> [1, 2, 3]], trace = []\<rparr>"

definition photo_world_stale :: world where
  "photo_world_stale =
     \<lparr>files = [''photos/a.jpg'' \<mapsto> [1, 2, 3], photo_target \<mapsto> [9]], trace = []\<rparr>"

definition photo_world_done :: world where
  "photo_world_done =
     \<lparr>files = [''photos/a.jpg'' \<mapsto> [1, 2, 3], photo_target \<mapsto> [1, 2, 3]],
      trace = [StorageExists photo_target, StorageOpen ''photos/a.jpg'',
               StorageDelete photo_target, StorageSave photo_target [1, 2, 3],
               Stdout (''Saved '' @ photo_target @ [CHR 0x0A])]\<rparr>"

text \<open>The same field with its format called \<open>name\<close>.\<close>

definition shadowed_file :: "string fieldfile" where
  "shadowed_file =
     fieldfile_of (photo_field\<lparr>formats := [(''name'', [''default''])]\<rparr>)
       (photo_record ''photos/a.jpg'' ''0.5x0.5'')"

text \<open>
  The batch as the specification words it: for every registered field that the filter
  does not skip, a header line, then for every record of its model the generation of every
  format of the field (for records that hold a file) and the progress line after every
  tenth record, then the closing line. The schedule is computed from the registry, the
  records and the filter alone; running it ignores how each generation ends.
\<close>

datatype 'p step = Write string | Work "'p image_field" "string \<rightharpoonup> pyval" string

definition run_step :: "('p, 'img) env \<Rightarrow> bool \<Rightarrow> world \<Rightarrow> 'p step \<Rightarrow> world" where
  "run_step E force w s =
     (case s of
        Write text \<Rightarrow> emit (Stdout text) w
      | Work fld instance key \<Rightarrow> snd (process E (fieldfile_of fld instance) key force w))"

definition record_work :: "'p image_field \<Rightarrow> (string \<rightharpoonup> pyval) \<Rightarrow> 'p step list" where
  "record_work fld instance =
     (if has_file (fieldfile_of fld instance)
      then map (Work fld instance) (map fst (formats fld)) else [])"

definition record_steps ::
  "('p, 'img) env \<Rightarrow> 'p image_field \<Rightarrow> nat \<Rightarrow> nat \<times> (string \<rightharpoonup> pyval) \<Rightarrow> 'p step list" where
  "record_steps E fld count ir =
     record_work fld (snd ir)
       @ (if fst ir mod 10 = 0
          then [Write ([CHR 0x0D] @ ''|''
                         @ rjust 50 (replicate (progress_stars E (fst ir) count) CHR ''*'')
                         @ ''|'')]
          else [])"

definition field_steps ::
  "('p, 'img) env \<Rightarrow> (string \<Rightarrow> (string \<rightharpoonup> pyval) list) \<Rightarrow> 'p image_field \<Rightarrow> 'p step list" where
  "field_steps E db fld =
     [Write (label fld @ '': '' @ field_name fld @ [CHR 0x0A])]
       @ concat (map (record_steps E fld (length (db (label fld))))
                   (zip [0..<length (db (label fld))] (db (label fld))))
       @ [Write ([CHR 0x0D] @ ''|'' @ replicate 50 CHR ''*'' @ ''|'' @ [CHR 0x0A])]"

definition batch_schedule ::
  "('p, 'img) env \<Rightarrow> (string \<Rightarrow> (string \<rightharpoonup> pyval) list) \<Rightarrow> field_filter
     \<Rightarrow> 'p image_field list \<Rightarrow> 'p step list" where
  "batch_schedule E db flt registry =
     concat (map (field_steps E db) (filter (\<lambda>fld. \<not> skip_field flt fld) registry))"

definition is_work :: "'p step \<Rightarrow> bool" where
  "is_work s = (case s of Write text \<Rightarrow> False | Work fld instance key \<Rightarrow> True)"

text \<open>Two photos, the first with an empty, undecodable file.\<close>

definition photo_db :: "string \<Rightarrow> (string \<rightharpoonup> pyval) list" where
  "photo_db model =
     (if model = ''app.Photo''
      then [photo_record ''photos/bad.jpg'' ''0.5x0.5'', photo_record ''photos/a.jpg'' ''0.5x0.5'']
      else [])"

definition batch_world :: world where
  "batch_world =
     \<lparr>files = [''photos/bad.jpg'' \<mapsto> [], ''photos/a.jpg'' \<mapsto> [1, 2, 3]], trace = []\<rparr>"

text \<open>The encoding without its padding.\<close>

fun b64_body :: "byte list \<Rightarrow> string" where
  "b64_body (a # b # c # rest) =
     [b64_char (unat a div 4),
      b64_char ((unat a mod 4) * 16 + unat b div 16),
      b64_char ((unat b mod 16) * 4 + unat c div 64),
      b64_char (unat c mod 64)] @ b64_body rest"
| "b64_body [a, b] =
     [b64_char (unat a div 4),
      b64_char ((unat a mod 4) * 16 + unat b div 16),
      b64_char ((unat b mod 16) * 4)]"
| "b64_body [a] = [b64_char (unat a div 4), b64_char ((unat a mod 4) * 16)]"
| "b64_body [] = []"

section \<open>Evaluating \<open>float()\<close> and \<open>_ppoi\<close>\<close>

lemmas py_float_eval =
  py_float_def strip_def is_space_def parse_absfloat_def lower_def lower_char_def
  parse_floatnumber_def parse_number_def is_digit_def digits_val_def scale10_def

lemmas photo_file_eval =
  photo_file_def fieldfile_of_def photo_field_def photo_record_def Let_def

lemma py_float_empty: "py_float [] = Inl ValueError"
  by (simp add: py_float_def strip_def)

lemma py_float_raises_ValueError: "py_float s = Inl e \<Longrightarrow> e = ValueError"
  by (auto simp: py_float_def Let_def split: option.splits)

lemma map_exn_ok: "map f xs = map Inr vs \<Longrightarrow> map_exn f xs = Inr vs"
proof (induction xs arbitrary: vs)
  case Nil
  then show ?case by simp
next
  case (Cons x xs)
  then obtain v vs' where "vs = v # vs'" by (cases vs) auto
  with Cons show ?case by simp
qed

lemma map_exn_fails:
  assumes "list_ex (\<lambda>x. f x = Inl e) xs" and "\<And>x e'. f x = Inl e' \<Longrightarrow> e' = e"
  shows "map_exn f xs = Inl e"
  using assms(1)
proof (induction xs)
  case Nil
  then show ?case by simp
next
  case (Cons x xs)
  show ?case
  proof (cases "f x")
    case (Inl e')
    with assms(2) show ?thesis by simp
  next
    case (Inr y)
    with Cons have "map_exn f xs = Inl e" by simp
    with Inr show ?thesis by simp
  qed
qed

lemma ppoi_photo_half: "ppoi (photo_file n ''0.5x0.5'') = Inr default_ppoi"
  by (simp add: ppoi_def photo_file_eval py_float_eval default_ppoi_def)

lemma ppoi_photo_half_padded: "ppoi (photo_file n ''0.50x0.5'') = Inr default_ppoi"
  by (simp add: ppoi_def photo_file_eval py_float_eval default_ppoi_def)

section \<open>PPOI parsing\<close>

text \<open>
  C4, as the claim states it, fails: with a PPOI field configured and the empty string
  stored in it, \<open>_ppoi\<close> raises \<open>ValueError\<close> (\<open>''.split('x')\<close> is \<open>['']\<close> and
  \<open>float('')\<close> raises); it does not yield the default point.
\<close>

theorem ppoi_empty_string_raises:
  "ppoi (photo_file ''photos/a.jpg'' []) = Inl ValueError
   \<and> ppoi (photo_file ''photos/a.jpg'' []) \<noteq> Inr default_ppoi"
  by (simp add: ppoi_def photo_file_eval py_float_empty)

text \<open>
  C4 amended. \<open>_ppoi\<close> yields the default point \<open>[0.5, 0.5]\<close> when the field has no
  PPOI field configured. With one configured and a string stored in it, the string is
  split at every \<open>x\<close> and each part converted by \<open>float()\<close>: when every part converts,
  the result is the list of those floats; when some part does not (as for the empty
  string), the call raises \<open>ValueError\<close> and no default is substituted.
\<close>

theorem ppoi_default_or_parsed:
  "(ppoi_field (field self) = None \<longrightarrow> ppoi self = Inr default_ppoi)
   \<and> (ppoi_field (field self) = Some pf \<and> pf \<noteq> [] \<and> inst self pf = Some (PyStr s) \<longrightarrow>
        (map py_float (split_on CHR ''x'' s) = map Inr vs \<longrightarrow> ppoi self = Inr vs)
        \<and> (list_ex (\<lambda>c. py_float c = Inl ValueError) (split_on CHR ''x'' s)
              \<longrightarrow> ppoi self = Inl ValueError))"
  using map_exn_ok [of py_float "split_on CHR ''x'' s" vs]
    map_exn_fails [of py_float ValueError "split_on CHR ''x'' s"]
    py_float_raises_ValueError
  by (auto simp: ppoi_def)

theorem ppoi_default_or_parsed_witness:
  "ppoi_field (field (photo_file ''photos/a.jpg'' ''0.2x0.8'')) = Some ''ppoi''
   \<and> inst (photo_file ''photos/a.jpg'' ''0.2x0.8'') ''ppoi'' = Some (PyStr ''0.2x0.8'')
   \<and> map py_float (split_on CHR ''x'' ''0.2x0.8'')
       = map Inr [Finite False (1 / 5), Finite False (4 / 5)]
   \<and> ppoi (photo_file ''photos/a.jpg'' ''0.2x0.8'')
       = Inr [Finite False (1 / 5), Finite False (4 / 5)]
   \<and> list_ex (\<lambda>c. py_float c = Inl ValueError) (split_on CHR ''x'' ''0.2xabc'')
   \<and> ppoi (photo_file ''photos/a.jpg'' ''0.2xabc'') = Inl ValueError
   \<and> ppoi_field (field (fieldfile_of (photo_field\<lparr>ppoi_field := None\<rparr>) Map.empty)) = None
   \<and> ppoi (fieldfile_of (photo_field\<lparr>ppoi_field := None\<rparr>) Map.empty) = Inr default_ppoi"
proof -
  have h1: "ppoi_field (field (photo_file ''photos/a.jpg'' ''0.2x0.8'')) = Some ''ppoi''"
    and h2: "inst (photo_file ''photos/a.jpg'' ''0.2x0.8'') ''ppoi'' = Some (PyStr ''0.2x0.8'')"
    and h3: "ppoi_field (field (photo_file ''photos/a.jpg'' ''0.2xabc'')) = Some ''ppoi''"
    and h4: "inst (photo_file ''photos/a.jpg'' ''0.2xabc'') ''ppoi'' = Some (PyStr ''0.2xabc'')"
    and h5: "ppoi_field (field (fieldfile_of (photo_field\<lparr>ppoi_field := None\<rparr>) Map.empty))
               = None"
    by (simp_all add: photo_file_eval)
  have h6: "map py_float (split_on CHR ''x'' ''0.2x0.8'')
              = map Inr [Finite False (1 / 5), Finite False (4 / 5)]"
    by (simp add: py_float_eval)
  have h7: "list_ex (\<lambda>c. py_float c = Inl ValueError) (split_on CHR ''x'' ''0.2xabc'')"
    by (simp add: py_float_eval)
  show ?thesis
    using h1 h2 h3 h4 h5 h6 h7
      ppoi_default_or_parsed [of "photo_file ''photos/a.jpg'' ''0.2x0.8''" "''ppoi''"
        "''0.2x0.8''" "[Finite False (1 / 5), Finite False (4 / 5)]"]
      ppoi_default_or_parsed [of "photo_file ''photos/a.jpg'' ''0.2xabc''" "''ppoi''"
        "''0.2xabc''" "[]"]
      ppoi_default_or_parsed [of "fieldfile_of (photo_field\<lparr>ppoi_field := None\<rparr>) Map.empty"]
    by simp
qed

section \<open>The batch command with no field arguments\<close>

lemma skip_field_empty_filter: "skip_field (make_filter prev []) fld"
  by (simp add: make_filter_def skip_field_def)

lemma handle_fields_all_skipped:
  "list_all (skip_field flt) registry \<Longrightarrow> handle_fields E db flt force registry w = (Inr (), w)"
  by (induction registry) (simp_all add: returnS_def)

text \<open>
  C3 (first half, as the code behaves). Called with an empty list of field arguments,
  \<open>_make_filter\<close> leaves the filter \<open>{}\<close>, \<open>_skip_field\<close> is true of every registered
  field, and \<open>handle\<close> returns without processing a record or writing a line: every
  entry of the registry is skipped, where the claim says none is.
\<close>

theorem handle_no_arguments_processes_nothing:
  "handle E registry db prev \<lparr>opt_field = [], opt_force = force\<rparr> w = (Inr (), w)
   \<and> list_all (skip_field (make_filter prev [])) registry"
proof -
  have "list_all (skip_field (make_filter prev [])) registry"
    by (simp add: list_all_iff skip_field_empty_filter)
  then show ?thesis
    by (simp add: handle_def handle_fields_all_skipped)
qed

section \<open>The post-delete hook\<close>

text \<open>
  C2 (as the code behaves). \<open>_clear_generated_files\<close> raises \<open>NameError\<close> on its first
  statement and leaves the storage as it was: no derivative is deleted.
\<close>

theorem clear_generated_files_raises:
  "clear_generated_files instance w = (Inl NameError, w)"
  by (simp add: clear_generated_files_def module_names_def raise_def)

section \<open>The path resolver is a function of name, recipe and PPOI\<close>

text \<open>
  C7. Two field files that agree on the source name and on the parsed PPOI resolve every
  recipe to the same path (or fail alike), whatever else distinguishes them: their
  fields, their instances, their cached attributes. The resolver neither reads nor
  changes the storage.
\<close>

theorem processed_name_deterministic:
  "name f1 = name f2 \<Longrightarrow> ppoi f1 = ppoi f2
   \<Longrightarrow> processed_name E f1 processors = processed_name E f2 processors"
  by (cases "name f2") (simp_all add: processed_name_def)

theorem processed_name_deterministic_witness:
  "name (photo_file ''photos/a.jpg'' ''0.5x0.5'') = name (photo_file ''photos/a.jpg'' ''0.50x0.5'')
   \<and> ppoi (photo_file ''photos/a.jpg'' ''0.5x0.5'') = ppoi (photo_file ''photos/a.jpg'' ''0.50x0.5'')
   \<and> photo_file ''photos/a.jpg'' ''0.5x0.5'' \<noteq> photo_file ''photos/a.jpg'' ''0.50x0.5''
   \<and> processed_name photo_env (photo_file ''photos/a.jpg'' ''0.5x0.5'') [''default'']
       = processed_name photo_env (photo_file ''photos/a.jpg'' ''0.50x0.5'') [''default'']"
proof -
  have n: "name (photo_file ''photos/a.jpg'' ''0.5x0.5'')
             = name (photo_file ''photos/a.jpg'' ''0.50x0.5'')"
    by (simp add: photo_file_eval)
  have p: "ppoi (photo_file ''photos/a.jpg'' ''0.5x0.5'')
             = ppoi (photo_file ''photos/a.jpg'' ''0.50x0.5'')"
    by (simp add: ppoi_photo_half ppoi_photo_half_padded)
  have d: "photo_file ''photos/a.jpg'' ''0.5x0.5'' \<noteq> photo_file ''photos/a.jpg'' ''0.50x0.5''"
  proof
    assume "photo_file ''photos/a.jpg'' ''0.5x0.5'' = photo_file ''photos/a.jpg'' ''0.50x0.5''"
    then have "inst (photo_file ''photos/a.jpg'' ''0.5x0.5'') ''ppoi''
                 = inst (photo_file ''photos/a.jpg'' ''0.50x0.5'') ''ppoi''"
      by simp
    then show False by (simp add: photo_file_eval)
  qed
  from n p d processed_name_deterministic [OF n p, of photo_env "[''default'']"]
  show ?thesis by simp
qed

lemmas action_defs = bindS_def liftE_def returnS_def raise_def emit_def
  storage_exists_def storage_open_def storage_delete_def storage_save_def print_def

lemma processed_name_Some:
  "name self = Some n \<Longrightarrow> ppoi self = Inr pp \<Longrightarrow>
   processed_name E self processors =
     Inr (''__processed__/'' @ take 2 (urlhash n) @ ''/'' @ drop 2 (urlhash n) @ ''_''
            @ urlhash (join ''|'' (map (str_proc E) processors) @ ''|'' @ str_list E pp)
            @ snd (splitext n))"
  by (simp add: processed_name_def Let_def)

section \<open>Generating a derivative\<close>

text \<open>
  C6. \<open>process(item, force=True)\<close> on a field file whose source opens, decodes, runs
  through the pipeline and encodes: the call returns normally, never asks the storage
  whether the target exists, and performs exactly open source, delete target, save
  target, in this order; afterwards the storage holds the newly encoded bytes at the
  resolved path, whatever it held there before.
\<close>

theorem process_force_regenerates:
  assumes "map_of (formats (field self)) item = Some processors"
    and "name self = Some n" and "n \<noteq> []"
    and "ppoi self = Inr pp"
    and "files w n = Some orig"
    and "image_open E orig = Inr img"
    and "build_handler E processors = Inr handler"
    and "handler img \<lparr>ctx_ppoi = pp, ctx_save_kwargs = []\<rparr> = Inr (img', context')"
    and "image_save E img' (image_format E img) (ctx_save_kwargs context') = Inr buf"
  shows "\<exists>target. processed_name E self processors = Inr target
           \<and> process E self item True w =
               (Inr (), w\<lparr>files := (files w)(target \<mapsto> buf),
                          trace := trace w @ [StorageOpen n, StorageDelete target,
                                              StorageSave target buf,
                                              Stdout (''Saved '' @ target @ [CHR 0x0A])]\<rparr>)"
proof -
  from processed_name_Some [OF assms(2) assms(4), of E processors]
  obtain target where t: "processed_name E self processors = Inr target" by blast
  have "process E self item True w =
          (Inr (), w\<lparr>files := (files w)(target \<mapsto> buf),
                     trace := trace w @ [StorageOpen n, StorageDelete target,
                                         StorageSave target buf,
                                         Stdout (''Saved '' @ target @ [CHR 0x0A])]\<rparr>)"
    using assms t
    by (simp add: process_def lookup_format_def open_file_def action_defs Let_def)
  with t show ?thesis by blast
qed

text \<open>
  C5. When \<open>process(item)\<close> without force has returned normally, the derivative exists
  at the resolved path and a second call returns at once: it only asks the storage
  whether the path exists, and opens, deletes and saves nothing. If the path was absent
  before the first call, that call ran the open, delete, save sequence exactly once; if
  it was present, the first call was already such a no-op.
\<close>

theorem process_twice_without_force:
  assumes "process E self item False w = (Inr (), w1)"
  shows "\<exists>processors target.
           lookup_format self item = Inr processors
           \<and> processed_name E self processors = Inr target
           \<and> files w1 target \<noteq> None
           \<and> process E self item False w1
               = (Inr (), w1\<lparr>trace := trace w1 @ [StorageExists target]\<rparr>)
           \<and> (files w target \<noteq> None \<longrightarrow> w1 = w\<lparr>trace := trace w @ [StorageExists target]\<rparr>)
           \<and> (files w target = None \<longrightarrow>
                 (\<exists>n buf. name self = Some n
                    \<and> w1 = w\<lparr>files := (files w)(target \<mapsto> buf),
                              trace := trace w @ [StorageExists target, StorageOpen n,
                                                  StorageDelete target, StorageSave target buf,
                                                  Stdout (''Saved '' @ target @ [CHR 0x0A])]\<rparr>))"
proof -
  from assms obtain processors where p: "lookup_format self item = Inr processors"
    by (cases "lookup_format self item") (auto simp: process_def action_defs)
  from assms p obtain target where t: "processed_name E self processors = Inr target"
    by (cases "processed_name E self processors") (auto simp: process_def action_defs)
  have again: "files w1 target \<noteq> None \<Longrightarrow>
      process E self item False w1 = (Inr (), w1\<lparr>trace := trace w1 @ [StorageExists target]\<rparr>)"
    using p t by (simp add: process_def action_defs)
  show ?thesis
  proof (cases "files w target")
    case (Some old)
    with assms p t have "w1 = w\<lparr>trace := trace w @ [StorageExists target]\<rparr>"
      by (auto simp: process_def action_defs)
    with Some p t again show ?thesis by auto
  next
    case None
    with assms p t obtain n buf where
      "name self = Some n"
      "w1 = w\<lparr>files := (files w)(target \<mapsto> buf),
                trace := trace w @ [StorageExists target, StorageOpen n,
                                    StorageDelete target, StorageSave target buf,
                                    Stdout (''Saved '' @ target @ [CHR 0x0A])]\<rparr>"
      by (auto simp: process_def open_file_def action_defs Let_def
          split: sum.splits option.splits if_splits prod.splits)
    with None p t again show ?thesis by auto
  qed
qed

lemma splitext_photo: "splitext ''photos/a.jpg'' = (''photos/a'', ''.jpg'')"
  by code_simp

lemma name_photo_file: "name (photo_file n p) = Some n"
  by (simp add: photo_file_eval)

lemma processed_name_photo:
  "processed_name photo_env (photo_file ''photos/a.jpg'' ''0.5x0.5'') [''default'']
     = Inr photo_target"
  using processed_name_Some [OF name_photo_file ppoi_photo_half,
      where n = "''photos/a.jpg''" and E = photo_env and processors = "[''default'']"]
  by (simp add: splitext_photo photo_target_def photo_env_def str_list_def default_ppoi_def)

lemma photo_target_not_source: "photo_target \<noteq> ''photos/a.jpg''"
  by (simp add: photo_target_def)

theorem process_force_regenerates_witness:
  "map_of (formats (field (photo_file ''photos/a.jpg'' ''0.5x0.5''))) ''thumb'' = Some [''default'']
   \<and> name (photo_file ''photos/a.jpg'' ''0.5x0.5'') = Some ''photos/a.jpg''
   \<and> ppoi (photo_file ''photos/a.jpg'' ''0.5x0.5'') = Inr default_ppoi
   \<and> files photo_world_stale ''photos/a.jpg'' = Some [1, 2, 3]
   \<and> files photo_world_stale photo_target = Some [9]
   \<and> image_open photo_env [1, 2, 3] = Inr [1, 2, 3]
   \<and> process photo_env (photo_file ''photos/a.jpg'' ''0.5x0.5'') ''thumb'' True photo_world_stale
       = (Inr (),
          photo_world_stale
            \<lparr>files := (files photo_world_stale)(photo_target \<mapsto> [1, 2, 3]),
             trace := [StorageOpen ''photos/a.jpg'', StorageDelete photo_target,
                       StorageSave photo_target [1, 2, 3],
                       Stdout (''Saved '' @ photo_target @ [CHR 0x0A])]\<rparr>)"
proof -
  let ?f = "photo_file ''photos/a.jpg'' ''0.5x0.5''"
  have h1: "map_of (formats (field ?f)) ''thumb'' = Some [''default'']"
    and h2: "name ?f = Some ''photos/a.jpg''"
    and h3: "''photos/a.jpg'' \<noteq> []"
    by (simp_all add: photo_file_eval)
  have h4: "ppoi ?f = Inr default_ppoi" by (rule ppoi_photo_half)
  have h5: "files photo_world_stale ''photos/a.jpg'' = Some [1, 2, 3]"
    using photo_target_not_source by (simp add: photo_world_stale_def)
  have h5': "files photo_world_stale photo_target = Some [9]"
    by (simp add: photo_world_stale_def)
  have h6: "image_open photo_env [1, 2, 3] = Inr [1, 2, 3]"
    and h7: "build_handler photo_env [''default''] = Inr (\<lambda>img c. Inr (img, c))"
    by (simp_all add: photo_env_def)
  have h8: "(\<lambda>img c. Inr (img, c)) [1, 2, 3 :: byte] \<lparr>ctx_ppoi = default_ppoi, ctx_save_kwargs = []\<rparr>
              = (Inr ([1, 2, 3], \<lparr>ctx_ppoi = default_ppoi, ctx_save_kwargs = []\<rparr>) :: exn + byte list \<times> ctx)"
    by simp
  have h9: "image_save photo_env [1, 2, 3] (image_format photo_env [1, 2, 3])
              (ctx_save_kwargs \<lparr>ctx_ppoi = default_ppoi, ctx_save_kwargs = []\<rparr>) = Inr [1, 2, 3]"
    by (simp add: photo_env_def)
  from process_force_regenerates [OF h1 h2 h3 h4 h5 h6 h7 h8 h9] processed_name_photo
  have "process photo_env ?f ''thumb'' True photo_world_stale
       = (Inr (),
          photo_world_stale
            \<lparr>files := (files photo_world_stale)(photo_target \<mapsto> [1, 2, 3]),
             trace := trace photo_world_stale @
                      [StorageOpen ''photos/a.jpg'', StorageDelete photo_target,
                       StorageSave photo_target [1, 2, 3],
                       Stdout (''Saved '' @ photo_target @ [CHR 0x0A])]\<rparr>)"
    by auto
  moreover have "trace photo_world_stale = []" by (simp add: photo_world_stale_def)
  ultimately show ?thesis using h1 h2 h4 h5 h5' h6 by simp
qed

lemma photo_env_simps:
  "image_open photo_env bs = (if bs = [] then Inl ImageError else Inr bs)"
  "image_format photo_env img = ''JPEG''"
  "build_handler photo_env ps = Inr (\<lambda>img c. Inr (img, c))"
  "image_save photo_env img fmt kwargs = Inr img"
  "storage_url photo_env p = ''/media/'' @ p"
  "alt_name photo_env p = p @ ''_1''"
  "str_proc photo_env q = q"
  by (simp_all add: photo_env_def)

lemma process_photo_first:
  "process photo_env (photo_file ''photos/a.jpg'' ''0.5x0.5'') ''thumb'' False photo_world
     = (Inr (), photo_world_done)"
proof -
  let ?f = "photo_file ''photos/a.jpg'' ''0.5x0.5''"
  have "lookup_format ?f ''thumb'' = Inr [''default'']"
    by (simp add: lookup_format_def photo_file_eval)
  moreover have "open_file ?f = storage_open ''photos/a.jpg''"
    by (simp add: open_file_def name_photo_file)
  moreover have "files photo_world photo_target = None"
    using photo_target_not_source by (simp add: photo_world_def)
  moreover have "files photo_world ''photos/a.jpg'' = Some [1, 2, 3]"
    by (simp add: photo_world_def)
  ultimately show ?thesis
    using photo_target_not_source
    by (simp add: process_def processed_name_photo ppoi_photo_half action_defs Let_def
        photo_env_simps photo_world_done_def photo_world_def)
qed

theorem process_twice_without_force_witness:
  "process photo_env (photo_file ''photos/a.jpg'' ''0.5x0.5'') ''thumb'' False photo_world
     = (Inr (), photo_world_done)
   \<and> files photo_world photo_target = None
   \<and> process photo_env (photo_file ''photos/a.jpg'' ''0.5x0.5'') ''thumb'' False photo_world_done
       = (Inr (), photo_world_done\<lparr>trace := trace photo_world_done @ [StorageExists photo_target]\<rparr>)"
proof -
  let ?f = "photo_file ''photos/a.jpg'' ''0.5x0.5''"
  have a: "files photo_world photo_target = None"
    using photo_target_not_source by (simp add: photo_world_def)
  from process_twice_without_force [OF process_photo_first]
  obtain processors target where
    l: "lookup_format ?f ''thumb'' = Inr processors" and
    t: "processed_name photo_env ?f processors = Inr target" and
    r: "process photo_env ?f ''thumb'' False photo_world_done
          = (Inr (), photo_world_done\<lparr>trace := trace photo_world_done @ [StorageExists target]\<rparr>)"
    by blast
  have "lookup_format ?f ''thumb'' = Inr [''default'']"
    by (simp add: lookup_format_def photo_file_eval)
  with l have "processors = [''default'']" by simp
  with t processed_name_photo have "target = photo_target" by simp
  with r a process_photo_first show ?thesis by simp
qed

lemma dict_photo_file_thumb: "dict (photo_file n p) ''thumb'' = None"
  by (simp add: photo_file_eval base_dict_def)

lemma dict_photo_file_missing: "dict (photo_file n p) ''missing'' = None"
  by (simp add: photo_file_eval base_dict_def)

lemma shadowed_file_facts:
  "name shadowed_file = Some ''photos/a.jpg''"
  "ppoi shadowed_file = Inr default_ppoi"
  "map_of (formats (field shadowed_file)) ''name'' = Some [''default'']"
  "dict shadowed_file ''name'' = Some (PyStr ''photos/a.jpg'')"
  by (simp_all add: shadowed_file_def fieldfile_of_def photo_field_def photo_record_def Let_def
      base_dict_def ppoi_def py_float_eval default_ppoi_def)

lemma processed_name_shadowed:
  "processed_name photo_env shadowed_file [''default''] = Inr photo_target"
  using processed_name_Some [OF shadowed_file_facts(1) shadowed_file_facts(2),
      where E = photo_env and processors = "[''default'']"]
  by (simp add: splitext_photo photo_target_def photo_env_def str_list_def default_ppoi_def)

section \<open>Attribute access to formats\<close>

text \<open>
  C10, as the claim states it, fails for a format whose name ordinary lookup already finds:
  with the format called \<open>name\<close>, the access returns the source's file name, not the URL
  of the derivative, and \<open>__getattr__\<close> is never consulted.
\<close>

theorem getattr_shadowed_format:
  "map_of (formats (field shadowed_file)) ''name'' = Some [''default'']
   \<and> processed_name photo_env shadowed_file [''default''] = Inr photo_target
   \<and> getattr photo_env shadowed_file ''name'' photo_world
       = (Inr (PyStr ''photos/a.jpg''), shadowed_file, photo_world)
   \<and> fst (getattr photo_env shadowed_file ''name'' photo_world)
       \<noteq> Inr (PyStr (storage_url photo_env photo_target))"
  by (simp add: shadowed_file_facts processed_name_shadowed getattr_def photo_env_simps)

text \<open>
  C10 amended. For a name that ordinary lookup does not find on the object: if it is a
  declared format and the path resolves, the access returns the storage URL of the
  resolved path, asks the storage for the URL once and stores the URL on the object, after
  which every access of that name returns the stored URL with no effect on the storage;
  if it is not a declared format, the access raises \<open>AttributeError\<close> and changes
  nothing.
\<close>

theorem getattr_format_memoized:
  assumes "dict self item = None"
  shows "(map_of (formats (field self)) item = Some processors
            \<and> processed_name E self processors = Inr target \<longrightarrow>
          getattr E self item w
            = (Inr (PyStr (storage_url E target)),
               self\<lparr>dict := (dict self)(item \<mapsto> PyStr (storage_url E target))\<rparr>,
               w\<lparr>trace := trace w @ [StorageUrl target]\<rparr>)
          \<and> (\<forall>w'. getattr E (self\<lparr>dict := (dict self)(item \<mapsto> PyStr (storage_url E target))\<rparr>)
                       item w'
                     = (Inr (PyStr (storage_url E target)),
                        self\<lparr>dict := (dict self)(item \<mapsto> PyStr (storage_url E target))\<rparr>, w')))
         \<and> (map_of (formats (field self)) item = None \<longrightarrow>
              getattr E self item w = (Inl AttributeError, self, w))"
  using assms
  by (simp add: getattr_def getattr_hook_def storage_get_url_def emit_def)

theorem getattr_format_memoized_witness:
  "dict (photo_file ''photos/a.jpg'' ''0.5x0.5'') ''thumb'' = None
   \<and> map_of (formats (field (photo_file ''photos/a.jpg'' ''0.5x0.5''))) ''thumb'' = Some [''default'']
   \<and> processed_name photo_env (photo_file ''photos/a.jpg'' ''0.5x0.5'') [''default'']
       = Inr photo_target
   \<and> fst (getattr photo_env (photo_file ''photos/a.jpg'' ''0.5x0.5'') ''thumb'' photo_world)
       = Inr (PyStr (''/media/'' @ photo_target))
   \<and> trace (snd (snd (getattr photo_env (photo_file ''photos/a.jpg'' ''0.5x0.5'') ''thumb''
                          photo_world)))
       = [StorageUrl photo_target]
   \<and> getattr photo_env
         (fst (snd (getattr photo_env (photo_file ''photos/a.jpg'' ''0.5x0.5'') ''thumb''
                      photo_world)))
         ''thumb'' photo_world_done
       = (Inr (PyStr (''/media/'' @ photo_target)),
          fst (snd (getattr photo_env (photo_file ''photos/a.jpg'' ''0.5x0.5'') ''thumb''
                      photo_world)),
          photo_world_done)
   \<and> dict (photo_file ''photos/a.jpg'' ''0.5x0.5'') ''missing'' = None
   \<and> map_of (formats (field (photo_file ''photos/a.jpg'' ''0.5x0.5''))) ''missing'' = None
   \<and> getattr photo_env (photo_file ''photos/a.jpg'' ''0.5x0.5'') ''missing'' photo_world
       = (Inl AttributeError, photo_file ''photos/a.jpg'' ''0.5x0.5'', photo_world)"
proof -
  let ?f = "photo_file ''photos/a.jpg'' ''0.5x0.5''"
  have f1: "map_of (formats (field ?f)) ''thumb'' = Some [''default'']"
    and f2: "map_of (formats (field ?f)) ''missing'' = None"
    by (simp_all add: photo_file_eval)
  have t: "trace photo_world = []" by (simp add: photo_world_def)
  from getattr_format_memoized [OF dict_photo_file_thumb, of "''photos/a.jpg''" "''0.5x0.5''"
      "[''default'']" photo_env photo_target photo_world]
    getattr_format_memoized [OF dict_photo_file_missing, of "''photos/a.jpg''" "''0.5x0.5''"
      "[''default'']" photo_env photo_target photo_world]
    f1 f2 t processed_name_photo dict_photo_file_thumb dict_photo_file_missing
  show ?thesis by (simp add: photo_env_simps)
qed

lemma process_keys_fold:
  "process_keys E ff force keys w
     = (Inr (), foldl (\<lambda>w key. snd (process E ff key force w)) w keys)"
  by (induction keys arbitrary: w)
     (auto simp: returnS_def bindS_def try_pass_def split: prod.splits sum.splits)

lemma run_step_Write: "run_step E force w (Write t) = emit (Stdout t) w"
  by (simp add: run_step_def)

lemma run_step_Work:
  "run_step E force w (Work fld r key) = snd (process E (fieldfile_of fld r) key force w)"
  by (simp add: run_step_def)

lemma run_record_work:
  "foldl (run_step E force) w (record_work fld r)
     = (if has_file (fieldfile_of fld r)
        then foldl (\<lambda>w key. snd (process E (fieldfile_of fld r) key force w)) w
               (map fst (formats fld))
        else w)"
  by (simp add: record_work_def foldl_map run_step_Work)

lemma run_record_steps:
  "foldl (run_step E force) w (record_steps E fld count (idx, r))
     = (let w' = foldl (run_step E force) w (record_work fld r)
        in if idx mod 10 = 0
           then emit (Stdout ([CHR 0x0D] @ ''|''
                               @ rjust 50 (replicate (progress_stars E idx count) CHR ''*'')
                               @ ''|'')) w'
           else w')"
  by (simp add: record_steps_def run_step_Write Let_def)

lemma handle_instances_fold:
  "handle_instances E fld force count irs w
     = (Inr (), foldl (run_step E force) w (concat (map (record_steps E fld count) irs)))"
proof (induction irs arbitrary: w)
  case Nil
  show ?case by (simp add: returnS_def)
next
  case (Cons ir irs)
  obtain idx r where ir: "ir = (idx, r)" by (cases ir)
  show ?case
    unfolding ir
    by (simp add: Cons.IH bindS_def returnS_def process_keys_fold run_record_steps
        run_record_work stdout_write_def Let_def)
qed

lemma run_field_steps:
  "foldl (run_step E force) w (field_steps E db fld)
     = emit (Stdout ([CHR 0x0D] @ ''|'' @ replicate 50 CHR ''*'' @ ''|'' @ [CHR 0x0A]))
         (foldl (run_step E force)
            (emit (Stdout (label fld @ '': '' @ field_name fld @ [CHR 0x0A])) w)
            (concat (map (record_steps E fld (length (db (label fld))))
                       (zip [0..<length (db (label fld))] (db (label fld))))))"
  by (simp add: field_steps_def run_step_Write)

lemma handle_fields_fold:
  "handle_fields E db flt force registry w
     = (Inr (), foldl (run_step E force) w (batch_schedule E db flt registry))"
proof (induction registry arbitrary: w)
  case Nil
  show ?case by (simp add: returnS_def batch_schedule_def)
next
  case (Cons fld registry)
  show ?case
  proof (cases "skip_field flt fld")
    case True
    then show ?thesis using Cons.IH by (simp add: batch_schedule_def)
  next
    case False
    have "batch_schedule E db flt (fld # registry)
            = field_steps E db fld @ batch_schedule E db flt registry"
      using False by (simp add: batch_schedule_def)
    then show ?thesis
      using False Cons.IH
      by (simp add: run_field_steps bindS_def stdout_write_def handle_instances_fold Let_def)
  qed
qed

lemma filter_is_work_record_steps:
  "filter is_work (record_steps E fld count ir) = record_work fld (snd ir)"
  by (simp add: record_steps_def record_work_def is_work_def)

lemma map_snd_enumerate:
  "map (\<lambda>ir. f (snd ir)) (zip [0..<length xs] xs) = map f xs"
  by (rule nth_equalityI) simp_all

lemma filter_is_work_field_steps:
  "filter is_work (field_steps E db fld) = concat (map (record_work fld) (db (label fld)))"
  by (simp add: field_steps_def filter_concat comp_def filter_is_work_record_steps is_work_def
      map_snd_enumerate)

lemma filter_is_work_batch_schedule:
  "filter is_work (batch_schedule E db flt registry)
     = concat (map (\<lambda>fld. concat (map (record_work fld) (db (label fld))))
                 (filter (\<lambda>fld. \<not> skip_field flt fld) registry))"
  by (simp add: batch_schedule_def filter_concat comp_def filter_is_work_field_steps)

section \<open>The batch command\<close>

text \<open>
  C9. \<open>handle\<close> always returns normally, and its effect is that of running the whole
  schedule: every format of every record that holds a file, for every field the filter
  does not skip, is attempted in order, each attempt starting from the state the previous
  one left, whether that one returned or raised. The attempts in the schedule are exactly
  these (field, record, format) triples, none dropped after a failure.
\<close>

theorem handle_completes_batch:
  "handle E registry db prev opts w
     = (Inr (), foldl (run_step E (opt_force opts)) w
                  (batch_schedule E db (make_filter prev (opt_field opts)) registry))
   \<and> filter is_work (batch_schedule E db (make_filter prev (opt_field opts)) registry)
       = concat (map (\<lambda>fld. concat (map (record_work fld) (db (label fld))))
                   (filter (\<lambda>fld. \<not> skip_field (make_filter prev (opt_field opts)) fld)
                      registry))"
  by (simp add: handle_def handle_fields_fold filter_is_work_batch_schedule)

lemma make_filter_photo:
  "make_filter prev [''app.Photo''] = Some [''app.photo'' \<mapsto> []]"
proof -
  have "lower ''app.Photo'' = ''app.photo''" by code_simp
  then show ?thesis by (simp add: make_filter_def add_filter_def)
qed

lemma skip_field_photo: "\<not> skip_field (Some [''app.photo'' \<mapsto> []]) photo_field"
  by (simp add: skip_field_def photo_field_def)

lemma batch_schedule_photo:
  "batch_schedule photo_env photo_db (Some [''app.photo'' \<mapsto> []]) [photo_field]
     = [Write (''app.Photo: image'' @ [CHR 0x0A]),
        Work photo_field (photo_record ''photos/bad.jpg'' ''0.5x0.5'') ''thumb'',
        Write ([CHR 0x0D] @ ''|'' @ replicate 50 CHR '' '' @ ''|''),
        Work photo_field (photo_record ''photos/a.jpg'' ''0.5x0.5'') ''thumb'',
        Write ([CHR 0x0D] @ ''|'' @ replicate 50 CHR ''*'' @ ''|'' @ [CHR 0x0A])]"
proof -
  have l: "label photo_field = ''app.Photo''" "field_name photo_field = ''image''"
    "map fst (formats photo_field) = [''thumb'']"
    by (simp_all add: photo_field_def)
  have db: "photo_db ''app.Photo''
              = [photo_record ''photos/bad.jpg'' ''0.5x0.5'', photo_record ''photos/a.jpg'' ''0.5x0.5'']"
    by (simp add: photo_db_def)
  have z: "zip [0..<2] [photo_record ''photos/bad.jpg'' ''0.5x0.5'',
                        photo_record ''photos/a.jpg'' ''0.5x0.5'']
             = [(0, photo_record ''photos/bad.jpg'' ''0.5x0.5''),
                (1, photo_record ''photos/a.jpg'' ''0.5x0.5'')]"
    by (simp add: upt_rec numeral_2_eq_2)
  have h: "has_file (fieldfile_of photo_field (photo_record n p)) = (n \<noteq> [])" for n p
    by (simp add: has_file_def fieldfile_of_def photo_field_def photo_record_def Let_def)
  have p: "progress_stars photo_env 0 n = 0" for n by (simp add: photo_env_def)
  show ?thesis
    using skip_field_photo
    by (simp add: batch_schedule_def field_steps_def l db z record_steps_def record_work_def h p
        rjust_def)
qed

theorem handle_completes_batch_witness:
  "handle photo_env [photo_field] photo_db None \<lparr>opt_field = [''app.Photo''], opt_force = False\<rparr>
     batch_world
     = (Inr (),
        foldl (run_step photo_env False) batch_world
          [Write (''app.Photo: image'' @ [CHR 0x0A]),
           Work photo_field (photo_record ''photos/bad.jpg'' ''0.5x0.5'') ''thumb'',
           Write ([CHR 0x0D] @ ''|'' @ replicate 50 CHR '' '' @ ''|''),
           Work photo_field (photo_record ''photos/a.jpg'' ''0.5x0.5'') ''thumb'',
           Write ([CHR 0x0D] @ ''|'' @ replicate 50 CHR ''*'' @ ''|'' @ [CHR 0x0A])])
   \<and> fst (process photo_env (photo_file ''photos/bad.jpg'' ''0.5x0.5'') ''thumb'' False batch_world)
       = Inl ImageError"
proof -
  have bad: "fst (process photo_env (photo_file ''photos/bad.jpg'' ''0.5x0.5'') ''thumb'' False
                    batch_world) = Inl ImageError"
  proof -
    let ?f = "photo_file ''photos/bad.jpg'' ''0.5x0.5''"
    from processed_name_Some [OF name_photo_file ppoi_photo_half,
        where n = "''photos/bad.jpg''" and E = photo_env and processors = "[''default'']"]
    obtain rest where t: "processed_name photo_env ?f [''default''] = Inr (''__processed__/'' @ rest)"
      by auto
    have "lookup_format ?f ''thumb'' = Inr [''default'']"
      by (simp add: lookup_format_def photo_file_eval)
    moreover have "open_file ?f = storage_open ''photos/bad.jpg''"
      by (simp add: open_file_def name_photo_file)
    ultimately show ?thesis
      using t
      by (simp add: process_def action_defs photo_env_simps batch_world_def)
  qed
  from handle_completes_batch [of photo_env "[photo_field]" photo_db None
      "\<lparr>opt_field = [''app.Photo''], opt_force = False\<rparr>" batch_world] bad
  show ?thesis
    by (simp add: make_filter_photo batch_schedule_photo)
qed

section \<open>The hash of a name is 27 URL-safe characters and keeps the digest\<close>

lemma sha1_length: "length (sha1 m) = 20"
  by (simp add: sha1_def bytes_of_32_def split: prod.splits)

lemma url_alphabet_length: "length url_alphabet = 64"
  by (simp add: url_alphabet_def)


lemma b64_char_in_alphabet: "i < 64 \<Longrightarrow> b64_char i \<in> set url_alphabet"
  by (simp add: b64_char_def url_alphabet_length)


lemma byte_bound: "unat (a :: byte) < 256"
  using unsigned_less [of a, where ?'a = nat] by simp

lemma b64encode_body:
  "urlsafe_b64encode xs = b64_body xs @ replicate ((3 - length xs mod 3) mod 3) CHR ''=''"
proof (induction xs rule: urlsafe_b64encode.induct)
  case (1 a b c rest)
  have "Suc (Suc (Suc (length rest))) mod 3 = length rest mod 3"
    by presburger
  with 1 show ?case by simp
next
  case (2 a b)
  have "(3 - Suc (Suc 0) mod 3) mod 3 = Suc 0" by simp
  then show ?case by simp
next
  case (3 a)
  have "(3 - Suc 0 mod 3) mod 3 = Suc (Suc 0)" by simp
  then show ?case by (simp add: numeral_2_eq_2)
next
  case 4
  show ?case by simp
qed

lemma b64_body_alphabet: "set (b64_body xs) \<subseteq> set url_alphabet"
proof (induction xs rule: b64_body.induct)
  case (1 a b c rest)
  have "unat a div 4 < 64" "(unat a mod 4) * 16 + unat b div 16 < 64"
    "(unat b mod 16) * 4 + unat c div 64 < 64" "unat c mod 64 < 64"
    using byte_bound [of a] byte_bound [of b] byte_bound [of c] by arith+
  with 1 show ?case by (simp add: b64_char_in_alphabet)
next
  case (2 a b)
  have "unat a div 4 < 64" "(unat a mod 4) * 16 + unat b div 16 < 64"
    "(unat b mod 16) * 4 < 64"
    using byte_bound [of a] byte_bound [of b] by arith+
  then show ?case by (simp add: b64_char_in_alphabet)
next
  case (3 a)
  have "unat a div 4 < 64" "(unat a mod 4) * 16 < 64"
    using byte_bound [of a] by arith+
  then show ?case by (simp add: b64_char_in_alphabet)
next
  case 4
  show ?case by simp
qed

lemma rstrip_padding:
  assumes "set u \<inter> set cs = {}" and "set v \<subseteq> set cs"
  shows "rstrip cs (u @ v) = u"
proof -
  have "dropWhile (\<lambda>c. c \<in> set cs) (rev v @ rev u) = dropWhile (\<lambda>c. c \<in> set cs) (rev u)"
    using assms(2) by (intro dropWhile_append2) auto
  moreover have "dropWhile (\<lambda>c. c \<in> set cs) (rev u) = rev u"
  proof (cases u rule: rev_cases)
    case Nil
    then show ?thesis by simp
  next
    case (snoc ys y)
    with assms(1) show ?thesis by auto
  qed
  ultimately show ?thesis by (simp add: rstrip_def)
qed

lemma urlsafe_base64_encode_body: "urlsafe_base64_encode xs = b64_body xs"
proof -
  have "CHR 0x0A \<notin> set url_alphabet" "CHR ''='' \<notin> set url_alphabet"
    by (simp_all add: url_alphabet_def)
  with b64_body_alphabet [of xs]
  have "set (b64_body xs) \<inter> set [CHR 0x0A, CHR ''=''] = {}" by auto
  then show ?thesis
    unfolding urlsafe_base64_encode_def b64encode_body
    by (rule rstrip_padding) auto
qed

lemma b64_body_length: "length (b64_body xs) = (4 * length xs + 2) div 3"
  by (induction xs rule: b64_body.induct) simp_all

lemma urlhash_length: "length (urlhash s) = 27"
  by (simp add: urlhash_def urlsafe_base64_encode_body b64_body_length sha1_length)

lemma urlhash_alphabet: "set (urlhash s) \<subseteq> set url_alphabet"
  by (simp add: urlhash_def urlsafe_base64_encode_body b64_body_alphabet)












section \<open>The form of the derivative path\<close>

lemma splitext_append: "fst (splitext p) @ snd (splitext p) = p"
  by (simp add: splitext_def Let_def)





text \<open>
  C1. For a field file with source name \<open>n\<close> and parsed PPOI \<open>pp\<close>, the resolved path is
  \<open>__processed__/\<close>, the first two characters of \<open>h1\<close>, \<open>/\<close>, the remaining 25
  characters of \<open>h1\<close>, \<open>_\<close>, \<open>h2\<close> and the extension, where \<open>h1\<close> is the URL-safe
  base64 text of the SHA-1 digest of the UTF-8 name, \<open>h2\<close> that of the processors'
  \<open>str\<close> joined by \<open>|\<close> followed by \<open>|\<close> and the \<open>str\<close> of the PPOI list, both 27
  characters of the URL-safe alphabet, and the extension is what \<open>os.path.splitext\<close>
  splits off the name, unchanged.
\<close>

theorem processed_name_form:
  fixes E :: "('p, 'img) env"
  defines "h1 \<equiv> \<lambda>n. urlsafe_base64_encode (sha1 (encode_utf8 n))"
    and "h2 \<equiv> \<lambda>E processors pp. urlsafe_base64_encode (sha1 (encode_utf8
                 (join ''|'' (map (str_proc E) processors) @ ''|'' @ str_list E pp)))"
  assumes "name self = Some n" and "ppoi self = Inr pp"
  shows "processed_name E self processors
           = Inr (''__processed__/'' @ take 2 (h1 n) @ ''/'' @ drop 2 (h1 n) @ ''_''
                    @ h2 E processors pp @ snd (splitext n))
         \<and> length (take 2 (h1 n)) = 2 \<and> length (drop 2 (h1 n)) = 25
         \<and> length (h2 E processors pp) = 27
         \<and> set (h1 n) \<subseteq> set url_alphabet \<and> set (h2 E processors pp) \<subseteq> set url_alphabet
         \<and> fst (splitext n) @ snd (splitext n) = n"
proof -
  have a: "h1 n = urlhash n"
    and b: "h2 E processors pp
              = urlhash (join ''|'' (map (str_proc E) processors) @ ''|'' @ str_list E pp)"
    by (simp_all add: h1_def h2_def urlhash_def)
  show ?thesis
    unfolding a b
    using urlhash_alphabet
    by (simp add: processed_name_Some [OF assms(3,4)] urlhash_length splitext_append)
qed

theorem processed_name_form_witness:
  "name (photo_file ''photos/a.jpg'' ''0.5x0.5'') = Some ''photos/a.jpg''
   \<and> ppoi (photo_file ''photos/a.jpg'' ''0.5x0.5'') = Inr default_ppoi
   \<and> processed_name photo_env (photo_file ''photos/a.jpg'' ''0.5x0.5'') [''default'']
       = Inr (''__processed__/''
                @ take 2 (urlsafe_base64_encode (sha1 (encode_utf8 ''photos/a.jpg''))) @ ''/''
                @ drop 2 (urlsafe_base64_encode (sha1 (encode_utf8 ''photos/a.jpg''))) @ ''_''
                @ urlsafe_base64_encode (sha1 (encode_utf8 ''default|[0.5, 0.5]''))
                @ ''.jpg'')"
  using processed_name_form [OF name_photo_file ppoi_photo_half,
      where n = "''photos/a.jpg''" and E = photo_env and processors = "[''default'']"]
  by (simp add: name_photo_file ppoi_photo_half splitext_photo photo_env_simps str_list_def
      default_ppoi_def photo_env_def)


section \<open>Which changes change the path\<close>





end
